theory Spec2Isabelle
  imports Main "HOL-Library.Sublist" "HOL-Library.Word"
begin

section \<open>Go library functions called by cmd/run.go\<close>

text \<open>
  Go strings are byte sequences; they are modelled as \<open>string\<close> (a list of \<open>char\<close>).
  An \<open>error\<close> value is modelled by the text its \<open>Error()\<close> method returns, the only
  thing cmd/run.go ever reads from one. A \<open>time.Duration\<close> is a signed 64-bit count of
  nanoseconds; run.go does no arithmetic on durations beyond the constants \<open>2 * Second\<close>
  and \<open>500 * Millisecond\<close>, which are far from the bounds, so it is an \<open>int\<close>.
  A \<open>net.IP\<close> is a byte slice.
\<close>

type_synonym error = string
type_synonym Duration = int
type_synonym IP = "8 word list"

definition Millisecond :: Duration where
  "Millisecond = 1000000"

definition Second :: Duration where
  "Second = 1000 * Millisecond"

subsection \<open>bytealg.IndexByteString and bytealg.LastIndexByteString\<close>

text \<open>
  Index of the first (last) occurrence of a byte in a string. Go returns \<open>-1\<close> when the
  byte does not occur; here that is \<open>None\<close>.
\<close>

fun IndexByteString :: "string \<Rightarrow> char \<Rightarrow> nat option" where
  "IndexByteString [] c = None"
| "IndexByteString (x # xs) c =
     (if x = c then Some 0
      else (case IndexByteString xs c of None \<Rightarrow> None | Some k \<Rightarrow> Some (Suc k)))"

fun LastIndexByteString :: "string \<Rightarrow> char \<Rightarrow> nat option" where
  "LastIndexByteString [] c = None"
| "LastIndexByteString (x # xs) c =
     (case LastIndexByteString xs c of
        Some k \<Rightarrow> Some (Suc k)
      | None \<Rightarrow> (if x = c then Some 0 else None))"

subsection \<open>net.SplitHostPort\<close>

text \<open>
  \<open>net.SplitHostPort\<close> of the Go standard library, branch by branch. It returns either
  an \<open>*AddrError\<close> (with empty host and port) or the host and the port. The port starts
  after the last colon; a host in square brackets loses the brackets.
\<close>

datatype AddrError = AddrError (Err: string) (Addr: string)

definition missingPort :: string where
  "missingPort = ''missing port in address''"

definition tooManyColons :: string where
  "tooManyColons = ''too many colons in address''"

definition addrErr :: "string \<Rightarrow> string \<Rightarrow> AddrError + string \<times> string" where
  "addrErr addr why = Inl (AddrError why addr)"

text \<open>
  The tail of \<open>SplitHostPort\<close>, shared by both branches: \<open>j\<close> and \<open>k\<close> are the positions
  from which an opening, respectively closing, bracket is no longer allowed, \<open>i\<close> is the
  index of the last colon.
\<close>

definition splitTail :: "string \<Rightarrow> string \<Rightarrow> nat \<Rightarrow> nat \<Rightarrow> nat \<Rightarrow> AddrError + string \<times> string" where
  "splitTail hostport host i j k =
     (if IndexByteString (drop j hostport) (CHR ''['') \<noteq> None
        then addrErr hostport ''unexpected '[' in address''
      else if IndexByteString (drop k hostport) (CHR '']'') \<noteq> None
        then addrErr hostport ''unexpected ']' in address''
      else Inr (host, drop (i + 1) hostport))"

definition SplitHostPort :: "string \<Rightarrow> AddrError + string \<times> string" where
  "SplitHostPort hostport =
     (case LastIndexByteString hostport (CHR '':'') of
        None \<Rightarrow> addrErr hostport missingPort
      | Some i \<Rightarrow>
          (if take 1 hostport = ''[''
           then (case IndexByteString hostport (CHR '']'') of
                   None \<Rightarrow> addrErr hostport ''missing ']' in address''
                 | Some end \<Rightarrow>
                     (if end + 1 = length hostport then addrErr hostport missingPort
                      else if end + 1 = i
                        then splitTail hostport (drop 1 (take end hostport)) i 1 (end + 1)
                      else if take 1 (drop (end + 1) hostport) = '':''
                        then addrErr hostport tooManyColons
                      else addrErr hostport missingPort))
           else (let host = take i hostport in
                 if IndexByteString host (CHR '':'') \<noteq> None
                   then addrErr hostport tooManyColons
                 else splitTail hostport host i 0 0)))"

subsection \<open>fmt.Sprintf with one string operand\<close>

text \<open>
  \<open>fmt.Sprintf(format, a)\<close> for a single string operand \<open>a\<close> and a format made of
  literal bytes, \<open>%%\<close>, \<open>%s\<close> and \<open>%v\<close>, which is all that run.go's formats
  (\<open>"Resolving %s"\<close>, \<open>"Port scanning %s"\<close>, \<open>"simulator %s not recognized"\<close>) use. The
  flag \<open>used\<close> says that the operand has been consumed: a later verb prints Go's
  \<open>%!s(MISSING)\<close>, an operand no verb consumed is reported as \<open>%!(EXTRA string=a)\<close>, a
  lone \<open>%\<close> at the end as \<open>%!(NOVERB)\<close>. Flags, widths, precisions and the other verbs
  are not modelled: any other verb byte is printed by the bad-verb rule
  \<open>%!c(string=a)\<close>.
\<close>

fun doPrintf :: "string \<Rightarrow> string \<Rightarrow> bool \<Rightarrow> string" where
  "doPrintf [] a used = (if used then [] else ''%!(EXTRA string='' @ a @ '')'')"
| "doPrintf (c # fs) a used =
     (if c \<noteq> CHR ''%'' then c # doPrintf fs a used
      else (case fs of
              [] \<Rightarrow> ''%!(NOVERB)'' @ doPrintf [] a used
            | v # rest \<Rightarrow>
                (if v = CHR ''%'' then CHR ''%'' # doPrintf rest a used
                 else if used then ''%!'' @ [v] @ ''(MISSING)'' @ doPrintf rest a used
                 else if v = CHR ''s'' \<or> v = CHR ''v'' then a @ doPrintf rest a True
                 else ''%!'' @ [v] @ ''(string='' @ a @ '')'' @ doPrintf rest a True)))"

definition Sprintf :: "string \<Rightarrow> string \<Rightarrow> string" where
  "Sprintf format a = doPrintf format a False"

section \<open>The packages of the repository that cmd/run.go imports\<close>

text \<open>
  Modelled from the spec: \<open>utils.StringsContains\<close>, of package \<open>utils\<close>, whose source is
  not at hand. The spec describes the selection as keeping the entries "whose name is in
  the requested set", and the command as rejecting a name that "has no matching catalog
  entry": the function says whether a string occurs in a slice of strings.
\<close>

fun StringsContains :: "string list \<Rightarrow> string \<Rightarrow> bool" where
  "StringsContains [] v = False"
| "StringsContains (x # xs) v = (if x = v then True else StringsContains xs v)"

text \<open>
  A \<open>simulator.Simulator\<close> is an interface with the methods \<open>Hosts() ([]string, error)\<close>
  and \<open>Simulate(extIP net.IP, host string)\<close>. What the implementations do is outside
  cmd/run.go; the orchestrator sees of a simulator only what one call of \<open>Hosts\<close> returns,
  which is the pair Go returns: the slice and the error (\<open>None\<close> is \<open>nil\<close>). A call of
  \<open>Simulate\<close> returns nothing and is recorded as an event.
\<close>

record Simulator =
  Hosts :: "string list \<times> error option"

text \<open>
  What run.go takes from the outside, as parameters: the four constructors of package
  \<open>simulator\<close>, \<open>utils.ExternalIP\<close> (the address of an interface, or an error), and
  whether package \<open>color\<close> colours its output (\<open>color.NoColor\<close>).
\<close>

record world =
  NewC2DNS :: Simulator
  NewDGA :: Simulator
  NewPortScan :: Simulator
  NewTunnel :: Simulator
  ExternalIP :: "string \<Rightarrow> error + IP"
  NoColor :: bool

definition RedString :: "world \<Rightarrow> string \<Rightarrow> string" where
  "RedString w str =
     (if NoColor w then str else [CHR 0x1B] @ ''[31m'' @ str @ [CHR 0x1B] @ ''[0m'')"

section \<open>cmd/run.go\<close>

subsection \<open>Observable events\<close>

text \<open>
  Everything the command does beyond returning is a sequence of events, in program order:
  the lines it prints (without the clock reading that \<open>printMsg\<close> and \<open>printWelcome\<close>
  prepend), the sleeps, and the calls into the other packages.
\<close>

datatype event =
    CallExternalIP string
  | PrintWelcome IP
  | PrintHeader
  | PrintLine string string
  | Sleep Duration
  | CallHosts Simulator
  | CallSimulate Simulator IP string
  | PrintGoodbay

subsection \<open>The catalog\<close>

text \<open>The field \<open>s\<close> of the Go struct is called \<open>sim\<close> here.\<close>

record simulatorInfo =
  name :: string
  infoHeaders :: "string list"
  infoRun :: string
  sim :: Simulator
  interval :: Duration

definition allsimualtors :: "world \<Rightarrow> simulatorInfo list" where
  "allsimualtors w =
     [\<lparr>name = ''c2-dns'',
       infoHeaders = [''Preparing random sample of current C2 domains''],
       infoRun = ''Resolving %s'',
       sim = NewC2DNS w,
       interval = 500 * Millisecond\<rparr>,
      \<lparr>name = ''dga'',
       infoHeaders = [''Generating list of DGA domains''],
       infoRun = ''Resolving %s'',
       sim = NewDGA w,
       interval = 500 * Millisecond\<rparr>,
      \<lparr>name = ''scan'',
       infoHeaders = [''Preparing random sample of RFC 1918 destinations'',
                      ''Preparing random sample of common TCP destination ports''],
       infoRun = ''Port scanning %s'',
       sim = NewPortScan w,
       interval = 0\<rparr>,
      \<lparr>name = ''tunnel'',
       infoHeaders = [''Preparing DNS tunnel hostnames''],
       infoRun = ''Resolving %s'',
       sim = NewTunnel w,
       interval = 500 * Millisecond\<rparr>]"

subsection \<open>selectSimulators\<close>

text \<open>
  The loop over the catalog with the slice being built as accumulator; \<open>append\<close> on a
  slice is \<open>@\<close> on the list of its elements.
\<close>

fun selectLoop :: "string list \<Rightarrow> simulatorInfo list \<Rightarrow> simulatorInfo list \<Rightarrow> simulatorInfo list" where
  "selectLoop names simulators [] = simulators"
| "selectLoop names simulators (s # rest) =
     (if StringsContains names (name s)
      then selectLoop names (simulators @ [s]) rest
      else selectLoop names simulators rest)"

definition selectSimulators :: "world \<Rightarrow> string list \<Rightarrow> simulatorInfo list" where
  "selectSimulators w names = selectLoop names [] (allsimualtors w)"

subsection \<open>run\<close>

definition printMsg :: "string \<Rightarrow> string list \<Rightarrow> event list" where
  "printMsg module msg = map (PrintLine module) msg"

text \<open>
  Lines 126 to 129: the host part when \<open>net.SplitHostPort\<close> succeeds, the whole string
  when it returns an error.
\<close>

definition displayHostname :: "string \<Rightarrow> string" where
  "displayHostname host =
     (case SplitHostPort host of
        Inl err \<Rightarrow> host
      | Inr (hostname, port) \<Rightarrow> hostname)"

text \<open>The loop over the targets of one entry, lines 125 to 138.\<close>

fun hostsLoop :: "simulatorInfo \<Rightarrow> IP \<Rightarrow> string \<Rightarrow> string list \<Rightarrow> event list" where
  "hostsLoop s extIP prevHostname [] = []"
| "hostsLoop s extIP prevHostname (host # hosts) =
     (let hostname = displayHostname host in
        (if prevHostname \<noteq> hostname
         then printMsg (name s) [Sprintf (infoRun s) hostname]
         else [])
        @ [CallSimulate (sim s) extIP host]
        @ [Sleep (interval s)]
        @ hostsLoop s extIP hostname hosts)"

text \<open>One iteration of the loop over the entries, lines 115 to 139.\<close>

definition runEntry :: "world \<Rightarrow> simulatorInfo \<Rightarrow> IP \<Rightarrow> Duration \<Rightarrow> event list" where
  "runEntry w s extIP ival =
     printMsg (name s) [''Starting'']
     @ printMsg (name s) (infoHeaders s)
     @ [Sleep ival]
     @ [CallHosts (sim s)]
     @ (case Hosts (sim s) of
          (hosts, err) \<Rightarrow>
            (case err of
               Some e \<Rightarrow> printMsg (name s) [RedString w ''failed '' @ e]
             | None \<Rightarrow> [])
            @ hostsLoop s extIP [] hosts)
     @ printMsg (name s) [''Finished'']"

fun runLoop :: "world \<Rightarrow> simulatorInfo list \<Rightarrow> IP \<Rightarrow> Duration \<Rightarrow> event list" where
  "runLoop w [] extIP ival = []"
| "runLoop w (s # simulators) extIP ival =
     runEntry w s extIP ival @ runLoop w simulators extIP ival"

text \<open>\<open>run\<close> returns its events and its error result, which is always \<open>nil\<close>.\<close>

definition run :: "world \<Rightarrow> simulatorInfo list \<Rightarrow> IP \<Rightarrow> Duration \<Rightarrow> event list \<times> error option" where
  "run w simulators extIP ival =
     ([PrintWelcome extIP, PrintHeader] @ runLoop w simulators extIP ival @ [PrintGoodbay],
      None)"

subsection \<open>newRunCommand\<close>

text \<open>
  The variables the closure \<open>RunE\<close> captures: the two flags, set by the flag parser before
  \<open>RunE\<close> is called, and \<open>simulatorNames\<close>, which \<open>RunE\<close> overwrites.
\<close>

record runVars =
  fast :: bool
  ifaceName :: string
  simulatorNames :: "string list"

definition newRunCommand :: "bool \<Rightarrow> string \<Rightarrow> runVars" where
  "newRunCommand fastFlag interfaceFlag =
     \<lparr>fast = fastFlag, ifaceName = interfaceFlag,
      simulatorNames = [''c2-dns'', ''dga'', ''scan'', ''tunnel'']\<rparr>"

text \<open>Lines 26 to 30: the first argument that is not a known name, if there is one.\<close>

fun checkArgs :: "string list \<Rightarrow> string list \<Rightarrow> error option" where
  "checkArgs known [] = None"
| "checkArgs known (arg # args) =
     (if \<not> StringsContains known arg
      then Some (Sprintf ''simulator %s not recognized'' arg)
      else checkArgs known args)"

text \<open>Lines 45 to 47.\<close>

definition zeroIntervals :: "simulatorInfo list \<Rightarrow> simulatorInfo list" where
  "zeroIntervals simulators = map (\<lambda>s. s\<lparr>interval := 0\<rparr>) simulators"

text \<open>
  \<open>RunE\<close> returns the events, the error (\<open>None\<close> is \<open>nil\<close>) and the captured variables as
  it leaves them.
\<close>

definition RunE :: "world \<Rightarrow> runVars \<Rightarrow> string list \<Rightarrow> event list \<times> error option \<times> runVars" where
  "RunE w vars args =
     (case checkArgs (simulatorNames vars) args of
        Some err \<Rightarrow> ([], Some err, vars)
      | None \<Rightarrow>
          (let vars1 = (if length args > 0 then vars\<lparr>simulatorNames := args\<rparr> else vars) in
           case ExternalIP w (ifaceName vars1) of
             Inl err \<Rightarrow> ([CallExternalIP (ifaceName vars1)], Some err, vars1)
           | Inr extIP \<Rightarrow>
               (let simulators = selectSimulators w (simulatorNames vars1);
                    ival = 2 * Second;
                    (simulators, ival) =
                       (if fast vars1 then (zeroIntervals simulators, 0) else (simulators, ival))
                in (CallExternalIP (ifaceName vars1) # fst (run w simulators extIP ival),
                    None, vars1))))"

subsection \<open>Reading a sequence of events\<close>

fun isCallSimulate :: "event \<Rightarrow> bool" where
  "isCallSimulate (CallSimulate sm ip host) = True"
| "isCallSimulate e = False"

definition simulateCalls :: "event list \<Rightarrow> event list" where
  "simulateCalls evs = filter isCallSimulate evs"

text \<open>
  What one iteration of the target loop emits when it starts with \<open>prevHostname\<close> and
  handles \<open>host\<close>, and the value of the variable \<open>prevHostname\<close> at the start of
  iteration \<open>i\<close>: the zero value of a Go string in the first iteration, the display
  hostname of the target before in the others.
\<close>

definition targetEvents :: "simulatorInfo \<Rightarrow> IP \<Rightarrow> string \<Rightarrow> string \<Rightarrow> event list" where
  "targetEvents s extIP prevHostname host =
     (if prevHostname \<noteq> displayHostname host
      then [PrintLine (name s) (Sprintf (infoRun s) (displayHostname host))]
      else [])
     @ [CallSimulate (sim s) extIP host, Sleep (interval s)]"

definition prevHostnameAt :: "string list \<Rightarrow> nat \<Rightarrow> string" where
  "prevHostnameAt hosts i = (if i = 0 then [] else displayHostname (hosts ! (i - 1)))"

subsection \<open>An example world\<close>

text \<open>
  Four simulators for the examples: the first returns three targets on two hosts, the
  second fails with no targets, the third returns an error together with a target, the
  fourth returns a target whose host part is empty. Interface \<open>eth9\<close> has no address.
\<close>

definition exampleWorld :: world where
  "exampleWorld =
     \<lparr>NewC2DNS = \<lparr>Hosts = ([''a:80'', ''a:443'', ''b:22''], None)\<rparr>,
      NewDGA = \<lparr>Hosts = ([], Some ''boom'')\<rparr>,
      NewPortScan = \<lparr>Hosts = ([''x:1''], Some ''bad'')\<rparr>,
      NewTunnel = \<lparr>Hosts = (['':80'', ''c''], None)\<rparr>,
      ExternalIP = (\<lambda>i. if i = ''eth9'' then Inl ''no such interface'' else Inr [10, 0, 0, 1]),
      NoColor = True\<rparr>"

section \<open>The catalog and the selection in memory\<close>

text \<open>
  \<open>allsimualtors\<close> is a package variable holding a slice, \<open>selectSimulators\<close> builds a
  second slice with \<open>append\<close>, and \<open>RunE\<close> writes through that slice in fast mode. Whether
  such a write can reach the catalog depends on which backing arrays the two slices use,
  so this section models the same code over an explicit memory.

  The heap is a list of backing arrays, an address is an index into it. A cell of an
  array of \<open>simulatorInfo\<close> is \<open>Some\<close> entry, or \<open>None\<close> for Go's zero value (the spare
  capacity that \<open>append\<close> allocates). A slice is a slice header: the address of its array,
  its length and its capacity; all slices here start at the first cell of their array.
  The \<open>nil\<close> slice has length and capacity zero.
\<close>

type_synonym addr = nat
type_synonym cell = "simulatorInfo option"
type_synonym heap = "cell list list"

record slice =
  ptr :: addr
  len :: nat
  cap :: nat

definition nilSlice :: slice where
  "nilSlice = \<lparr>ptr = 0, len = 0, cap = 0\<rparr>"

definition array :: "heap \<Rightarrow> addr \<Rightarrow> cell list" where
  "array h a = (if a < length h then h ! a else [])"

text \<open>
  Reading \<open>sl[i]\<close> and writing \<open>sl[i] = c\<close>. The loops of run.go only use indices below
  the length of the slice, where Go's bounds check passes.
\<close>

definition index :: "heap \<Rightarrow> slice \<Rightarrow> nat \<Rightarrow> cell" where
  "index h sl i = (if i < length (array h (ptr sl)) then array h (ptr sl) ! i else None)"

definition store :: "heap \<Rightarrow> slice \<Rightarrow> nat \<Rightarrow> cell \<Rightarrow> heap" where
  "store h sl i c = (if ptr sl < length h then h[ptr sl := (h ! ptr sl)[i := c]] else h)"

text \<open>
  Go's \<open>append(sl, c)\<close>. With spare capacity the new element is written into the array of
  \<open>sl\<close>, in place. Without, a new array is allocated, the elements are copied and the
  element is added. The capacity of the new array is the runtime's choice; it is at
  least the new length, and \<open>grow\<close> stands for whatever else the runtime adds.
\<close>

definition appendSlice :: "(nat \<Rightarrow> nat) \<Rightarrow> heap \<Rightarrow> slice \<Rightarrow> cell \<Rightarrow> heap \<times> slice" where
  "appendSlice grow h sl c =
     (if len sl < cap sl
      then (store h sl (len sl) c, sl\<lparr>len := len sl + 1\<rparr>)
      else (let newcap = max (len sl + 1) (grow (cap sl));
                arr = take (len sl) (array h (ptr sl)) @ [c]
                        @ replicate (newcap - (len sl + 1)) None
            in (h @ [arr], \<lparr>ptr = length h, len = len sl + 1, cap = newcap\<rparr>)))"

text \<open>The field \<open>name\<close> of a cell; the zero value has the empty name.\<close>

definition cellName :: "cell \<Rightarrow> string" where
  "cellName c = (case c of None \<Rightarrow> [] | Some s \<Rightarrow> name s)"

text \<open>
  The memory of the process: the heap and the package variable \<open>allsimualtors\<close>. At
  process start the variable points to an array holding the four entries of the
  composite literal.
\<close>

record memory =
  heap :: heap
  catalog :: slice

definition initMemory :: "world \<Rightarrow> memory" where
  "initMemory w =
     \<lparr>heap = [map Some (allsimualtors w)], catalog = \<lparr>ptr = 0, len = 4, cap = 4\<rparr>\<rparr>"

text \<open>
  \<open>selectSimulators\<close>, lines 59 to 67. The \<open>range\<close> loop evaluates the slice header of
  the catalog once and reads element \<open>i\<close> from the heap as it is in iteration \<open>i\<close>; the
  element is copied into the slice being built.
\<close>

fun selectLoopM ::
  "(nat \<Rightarrow> nat) \<Rightarrow> string list \<Rightarrow> slice \<Rightarrow> nat list \<Rightarrow> heap \<times> slice \<Rightarrow> heap \<times> slice" where
  "selectLoopM grow names cat [] (h, simulators) = (h, simulators)"
| "selectLoopM grow names cat (i # rest) (h, simulators) =
     (let s = index h cat i in
      if StringsContains names (cellName s)
      then selectLoopM grow names cat rest (appendSlice grow h simulators s)
      else selectLoopM grow names cat rest (h, simulators))"

definition selectSimulatorsM :: "(nat \<Rightarrow> nat) \<Rightarrow> string list \<Rightarrow> memory \<Rightarrow> heap \<times> slice" where
  "selectSimulatorsM grow names m =
     selectLoopM grow names (catalog m) [0..<len (catalog m)] (heap m, nilSlice)"

text \<open>Lines 45 to 47: \<open>simulators[i].interval = 0\<close> for every index of the slice.\<close>

fun zeroLoopM :: "slice \<Rightarrow> nat list \<Rightarrow> heap \<Rightarrow> heap" where
  "zeroLoopM simulators [] h = h"
| "zeroLoopM simulators (i # rest) h =
     zeroLoopM simulators rest
       (store h simulators i (map_option (\<lambda>s. s\<lparr>interval := 0\<rparr>) (index h simulators i)))"

definition zeroIntervalsM :: "slice \<Rightarrow> heap \<Rightarrow> heap" where
  "zeroIntervalsM simulators h = zeroLoopM simulators [0..<len simulators] h"

text \<open>
  The entries \<open>run\<close> reads when it ranges over a slice. A cell holding the zero value has
  a \<open>nil\<close> Simulator, on which the call of \<open>Hosts\<close> panics: there is no list of entries
  then.
\<close>

definition elements :: "heap \<Rightarrow> slice \<Rightarrow> simulatorInfo list option" where
  "elements h sl = those (map (index h sl) [0..<len sl])"

text \<open>
  \<open>RunE\<close> over the memory: the result of \<open>RunE\<close> (\<open>None\<close> when \<open>run\<close> would panic on a
  \<open>nil\<close> Simulator) and the memory it leaves. \<open>run\<close> itself writes nothing.
\<close>

definition RunEM ::
  "(nat \<Rightarrow> nat) \<Rightarrow> world \<Rightarrow> runVars \<Rightarrow> string list \<Rightarrow> memory
     \<Rightarrow> (event list \<times> error option \<times> runVars) option \<times> memory" where
  "RunEM grow w vars args m =
     (case checkArgs (simulatorNames vars) args of
        Some err \<Rightarrow> (Some ([], Some err, vars), m)
      | None \<Rightarrow>
          (let vars1 = (if length args > 0 then vars\<lparr>simulatorNames := args\<rparr> else vars) in
           case ExternalIP w (ifaceName vars1) of
             Inl err \<Rightarrow> (Some ([CallExternalIP (ifaceName vars1)], Some err, vars1), m)
           | Inr extIP \<Rightarrow>
               (let (h1, simulators) = selectSimulatorsM grow (simulatorNames vars1) m;
                    ival = 2 * Second;
                    (h2, ival) =
                       (if fast vars1 then (zeroIntervalsM simulators h1, 0) else (h1, ival))
                in (case elements h2 simulators of
                      None \<Rightarrow> None
                    | Some entries \<Rightarrow>
                        Some (CallExternalIP (ifaceName vars1) # fst (run w entries extIP ival),
                              None, vars1),
                    m\<lparr>heap := h2\<rparr>))))"

subsection \<open>Invariants of the memory model\<close>

text \<open>
  \<open>builds h0 h sl acc\<close>: starting from the heap \<open>h0\<close>, the code has reached the heap \<open>h\<close>
  with a slice \<open>sl\<close> whose elements are \<open>acc\<close>. Every array of \<open>h0\<close> is unchanged in \<open>h\<close>, and
  \<open>sl\<close> is either without capacity or lives in an array allocated since \<open>h0\<close>.
  \<open>catalogAt w m\<close>: the package variable points to an array holding the catalog.
\<close>

definition builds :: "heap \<Rightarrow> heap \<Rightarrow> slice \<Rightarrow> cell list \<Rightarrow> bool" where
  "builds h0 h sl acc =
     (take (length h0) h = h0 \<and> length h0 \<le> length h
      \<and> len sl \<le> cap sl \<and> len sl = length acc
      \<and> (cap sl = 0
          \<or> (length h0 \<le> ptr sl \<and> ptr sl < length h \<and> cap sl = length (h ! ptr sl)))
      \<and> take (len sl) (array h (ptr sl)) = acc)"

definition catalogAt :: "world \<Rightarrow> memory \<Rightarrow> bool" where
  "catalogAt w m =
     (ptr (catalog m) < length (heap m) \<and> len (catalog m) = 4
      \<and> array (heap m) (ptr (catalog m)) = map Some (allsimualtors w))"

definition zeroCell :: "cell \<Rightarrow> cell" where
  "zeroCell c = map_option (\<lambda>s. s\<lparr>interval := 0\<rparr>) c"

section \<open>Properties\<close>

subsection \<open>Strings and lists\<close>

lemma StringsContains_iff: "StringsContains xs v \<longleftrightarrow> v \<in> set xs"
  by (induction xs) auto







subsection \<open>net.SplitHostPort\<close>




lemma SplitHostPort_Inl: "SplitHostPort t = Inl e \<Longrightarrow> Addr e = t"
  by (auto simp: SplitHostPort_def addrErr_def splitTail_def Let_def
           split: option.splits if_splits)

subsection \<open>The target loop\<close>

lemma hostsLoop_Cons:
  "hostsLoop s extIP prev (host # hosts) =
     targetEvents s extIP prev host @ hostsLoop s extIP (displayHostname host) hosts"
  by (simp add: targetEvents_def printMsg_def Let_def)

lemma hostsLoop_zip:
  "hostsLoop s extIP prev hosts =
     concat (map (\<lambda>(p, h). targetEvents s extIP p h)
                 (zip (prev # map displayHostname hosts) hosts))"
proof (induction hosts arbitrary: prev)
  case Nil
  show ?case by simp
next
  case (Cons host hosts)
  show ?case
    unfolding hostsLoop_Cons Cons.IH by simp
qed

lemma zip_prev_index:
  "zip (prev # map f hosts) hosts =
     map (\<lambda>i. (if i = 0 then prev else f (hosts ! (i - 1)), hosts ! i)) [0..<length hosts]"
  by (rule nth_equalityI) (auto simp: nth_Cons split: nat.splits)

lemma hostsLoop_index:
  "hostsLoop s extIP [] hosts =
     concat (map (\<lambda>i. targetEvents s extIP (prevHostnameAt hosts i) (hosts ! i))
                 [0..<length hosts])"
  unfolding hostsLoop_zip zip_prev_index
  by (simp add: prevHostnameAt_def comp_def)

lemma simulateCalls_hostsLoop:
  "simulateCalls (hostsLoop s extIP prev hosts) = map (CallSimulate (sim s) extIP) hosts"
  by (induction hosts arbitrary: prev) (simp_all add: simulateCalls_def printMsg_def Let_def)




subsection \<open>One entry and the loop over the entries\<close>

lemma runEntry_events:
  "runEntry w s extIP ival =
     PrintLine (name s) ''Starting'' # map (PrintLine (name s)) (infoHeaders s)
     @ [Sleep ival, CallHosts (sim s)]
     @ (case snd (Hosts (sim s)) of
          Some e \<Rightarrow> [PrintLine (name s) (RedString w ''failed '' @ e)]
        | None \<Rightarrow> [])
     @ hostsLoop s extIP [] (fst (Hosts (sim s)))
     @ [PrintLine (name s) ''Finished'']"
  by (cases "Hosts (sim s)") (simp add: runEntry_def printMsg_def split: option.splits)

lemma runLoop_append:
  "runLoop w (xs @ ys) extIP ival = runLoop w xs extIP ival @ runLoop w ys extIP ival"
  by (induction xs) simp_all

lemma run_split:
  "run w (pre @ s # post) extIP ival =
     ([PrintWelcome extIP, PrintHeader] @ runLoop w pre extIP ival @ runEntry w s extIP ival
        @ runLoop w post extIP ival @ [PrintGoodbay], None)"
  by (simp add: run_def runLoop_append)

lemma simulateCalls_runEntry:
  "simulateCalls (runEntry w s extIP ival)
     = map (CallSimulate (sim s) extIP) (fst (Hosts (sim s)))"
  using simulateCalls_hostsLoop[of s extIP "[]" "fst (Hosts (sim s))"]
  unfolding runEntry_events simulateCalls_def
  by (simp split: option.splits)

lemma runEntry_in_runLoop:
  assumes "t \<in> set post"
  shows "\<exists>before after. runLoop w post extIP ival = before @ runEntry w t extIP ival @ after"
proof -
  from assms obtain xs ys where "post = xs @ t # ys"
    by (auto simp: in_set_conv_decomp)
  then have "runLoop w post extIP ival =
      runLoop w xs extIP ival @ runEntry w t extIP ival @ runLoop w ys extIP ival"
    by (simp add: runLoop_append)
  then show ?thesis by blast
qed

lemma CallSimulate_in_runEntry:
  assumes "host \<in> set (fst (Hosts (sim t)))"
  shows "CallSimulate (sim t) extIP host \<in> set (runEntry w t extIP ival)"
proof -
  have "set (simulateCalls (runEntry w t extIP ival)) \<subseteq> set (runEntry w t extIP ival)"
    by (simp add: simulateCalls_def)
  with assms show ?thesis
    by (auto simp: simulateCalls_runEntry)
qed

text \<open>
  C4, as the code has it. The events of one entry are its start line, its phase
  descriptions, the wait, the call of \<open>Hosts\<close>, the failure line if \<open>Hosts\<close> returned an
  error, then for each target in order the events of \<open>targetEvents\<close>, then the
  completion line. A target is announced exactly when its display hostname differs from
  the value of \<open>prevHostname\<close>: the empty string for the first target, the display
  hostname of the target before for the others. So a first target is announced unless
  its display hostname is empty. For the targets \<open>a:80\<close>, \<open>a:443\<close>, \<open>b:22\<close> there are two
  announcements, for \<open>a\<close> and for \<open>b\<close>. \<open>Simulate\<close> is called once per target, announced
  or not.
\<close>

theorem hostsLoop_announces_on_hostname_change:
  "runEntry w s extIP ival =
     PrintLine (name s) ''Starting'' # map (PrintLine (name s)) (infoHeaders s)
     @ [Sleep ival, CallHosts (sim s)]
     @ (case snd (Hosts (sim s)) of
          Some e \<Rightarrow> [PrintLine (name s) (RedString w ''failed '' @ e)]
        | None \<Rightarrow> [])
     @ concat (map (\<lambda>i. targetEvents s extIP (prevHostnameAt (fst (Hosts (sim s))) i)
                                       (fst (Hosts (sim s)) ! i))
                   [0..<length (fst (Hosts (sim s)))])
     @ [PrintLine (name s) ''Finished'']
   \<and> (PrintLine (name s) (Sprintf (infoRun s) (displayHostname host))
         \<in> set (targetEvents s extIP prev host)) = (prev \<noteq> displayHostname host)
   \<and> hostsLoop s extIP [] [''a:80'', ''a:443'', ''b:22''] =
       [PrintLine (name s) (Sprintf (infoRun s) ''a''),
        CallSimulate (sim s) extIP ''a:80'', Sleep (interval s),
        CallSimulate (sim s) extIP ''a:443'', Sleep (interval s),
        PrintLine (name s) (Sprintf (infoRun s) ''b''),
        CallSimulate (sim s) extIP ''b:22'', Sleep (interval s)]
   \<and> simulateCalls (runEntry w s extIP ival)
       = map (CallSimulate (sim s) extIP) (fst (Hosts (sim s)))"
proof -
  have a: "(PrintLine (name s) (Sprintf (infoRun s) (displayHostname host))
         \<in> set (targetEvents s extIP prev host)) = (prev \<noteq> displayHostname host)"
    by (simp add: targetEvents_def)
  have b: "hostsLoop s extIP [] [''a:80'', ''a:443'', ''b:22''] =
       [PrintLine (name s) (Sprintf (infoRun s) ''a''),
        CallSimulate (sim s) extIP ''a:80'', Sleep (interval s),
        CallSimulate (sim s) extIP ''a:443'', Sleep (interval s),
        PrintLine (name s) (Sprintf (infoRun s) ''b''),
        CallSimulate (sim s) extIP ''b:22'', Sleep (interval s)]"
    by (simp add: displayHostname_def SplitHostPort_def splitTail_def Let_def printMsg_def)
  show ?thesis
    using a b simulateCalls_runEntry[of w s extIP ival] runEntry_events[of w s extIP ival]
    by (simp only: hostsLoop_index)
qed

text \<open>
  C4 as stated fails: in the example world the tunnel simulator's first target is
  \<open>:80\<close>, whose display hostname is empty. With \<open>run --fast tunnel\<close> the first target is
  simulated without an announcement; the only announcement is for the second target.
\<close>

theorem first_target_with_empty_hostname_not_announced:
  "fst (RunE exampleWorld (newRunCommand True []) [''tunnel'']) =
     [CallExternalIP [], PrintWelcome [10, 0, 0, 1], PrintHeader,
      PrintLine ''tunnel'' ''Starting'',
      PrintLine ''tunnel'' ''Preparing DNS tunnel hostnames'',
      Sleep 0,
      CallHosts \<lparr>Hosts = (['':80'', ''c''], None)\<rparr>,
      CallSimulate \<lparr>Hosts = (['':80'', ''c''], None)\<rparr> [10, 0, 0, 1] '':80'',
      Sleep 0,
      PrintLine ''tunnel'' ''Resolving c'',
      CallSimulate \<lparr>Hosts = (['':80'', ''c''], None)\<rparr> [10, 0, 0, 1] ''c'',
      Sleep 0,
      PrintLine ''tunnel'' ''Finished'',
      PrintGoodbay]"
  by (simp add: RunE_def newRunCommand_def exampleWorld_def selectSimulators_def
      allsimualtors_def zeroIntervals_def run_def runEntry_def printMsg_def
      displayHostname_def SplitHostPort_def splitTail_def addrErr_def Let_def Sprintf_def)

text \<open>
  C5, as the code has it. When \<open>Hosts\<close> returns an error and no targets, the entry emits
  its start line, its phase descriptions, the wait, the call of \<open>Hosts\<close>, the failure
  line and the completion line, and nothing else; \<open>Simulate\<close> is not called.
\<close>

theorem failed_Hosts_without_targets_goes_to_Finished:
  "Hosts (sim s) = ([], Some e) \<Longrightarrow>
     runEntry w s extIP ival =
       PrintLine (name s) ''Starting'' # map (PrintLine (name s)) (infoHeaders s)
       @ [Sleep ival, CallHosts (sim s),
          PrintLine (name s) (RedString w ''failed '' @ e),
          PrintLine (name s) ''Finished'']
     \<and> simulateCalls (runEntry w s extIP ival) = []"
proof -
  assume h: "Hosts (sim s) = ([], Some e)"
  have "simulateCalls (runEntry w s extIP ival) = []"
    using h by (simp add: simulateCalls_runEntry)
  moreover have "runEntry w s extIP ival =
       PrintLine (name s) ''Starting'' # map (PrintLine (name s)) (infoHeaders s)
       @ [Sleep ival, CallHosts (sim s),
          PrintLine (name s) (RedString w ''failed '' @ e),
          PrintLine (name s) ''Finished'']"
    using h by (simp add: runEntry_events)
  ultimately show ?thesis by blast
qed

theorem failed_Hosts_without_targets_goes_to_Finished_witness:
  "Hosts (sim (allsimualtors exampleWorld ! 1)) = ([], Some ''boom'')
   \<and> runEntry exampleWorld (allsimualtors exampleWorld ! 1) [10, 0, 0, 1] (2 * Second) =
       [PrintLine ''dga'' ''Starting'',
        PrintLine ''dga'' ''Generating list of DGA domains'',
        Sleep 2000000000,
        CallHosts (NewDGA exampleWorld),
        PrintLine ''dga'' ''failed boom'',
        PrintLine ''dga'' ''Finished'']"
  using failed_Hosts_without_targets_goes_to_Finished
          [of "allsimualtors exampleWorld ! 1" "''boom''" exampleWorld "[10, 0, 0, 1]"
              "2 * Second"]
  by (simp add: allsimualtors_def exampleWorld_def RedString_def Second_def Millisecond_def)

text \<open>
  C5 as stated fails: the loop over the targets is not skipped after the failure line.
  In the example world the port scanner's \<open>Hosts\<close> returns an error together with the
  target \<open>x:1\<close>; with \<open>run --fast scan\<close> the target is announced and simulated after the
  failure line.
\<close>

theorem targets_returned_with_an_error_are_simulated:
  "fst (RunE exampleWorld (newRunCommand True []) [''scan'']) =
     [CallExternalIP [], PrintWelcome [10, 0, 0, 1], PrintHeader,
      PrintLine ''scan'' ''Starting'',
      PrintLine ''scan'' ''Preparing random sample of RFC 1918 destinations'',
      PrintLine ''scan'' ''Preparing random sample of common TCP destination ports'',
      Sleep 0,
      CallHosts \<lparr>Hosts = ([''x:1''], Some ''bad'')\<rparr>,
      PrintLine ''scan'' ''failed bad'',
      PrintLine ''scan'' ''Port scanning x'',
      CallSimulate \<lparr>Hosts = ([''x:1''], Some ''bad'')\<rparr> [10, 0, 0, 1] ''x:1'',
      Sleep 0,
      PrintLine ''scan'' ''Finished'',
      PrintGoodbay]"
  by (simp add: RunE_def newRunCommand_def exampleWorld_def selectSimulators_def
      allsimualtors_def zeroIntervals_def run_def runEntry_def printMsg_def
      displayHostname_def SplitHostPort_def splitTail_def addrErr_def Let_def Sprintf_def
      RedString_def)

lemma runEntry_targets:
  "runEntry w t extIP ival =
     PrintLine (name t) ''Starting'' # map (PrintLine (name t)) (infoHeaders t)
     @ [Sleep ival, CallHosts (sim t)]
     @ (case snd (Hosts (sim t)) of
          Some e \<Rightarrow> [PrintLine (name t) (RedString w ''failed '' @ e)]
        | None \<Rightarrow> [])
     @ concat (map (\<lambda>i. targetEvents t extIP (prevHostnameAt (fst (Hosts (sim t))) i)
                                       (fst (Hosts (sim t)) ! i))
                   [0..<length (fst (Hosts (sim t)))])
     @ [PrintLine (name t) ''Finished'']"
  using runEntry_events[of w t extIP ival] by (simp only: hostsLoop_index)

lemma announcement_in_runEntry:
  assumes "i < length (fst (Hosts (sim t)))"
      and "prevHostnameAt (fst (Hosts (sim t))) i \<noteq> displayHostname (fst (Hosts (sim t)) ! i)"
  shows "PrintLine (name t) (Sprintf (infoRun t) (displayHostname (fst (Hosts (sim t)) ! i)))
           \<in> set (runEntry w t extIP ival)"
proof -
  let ?hosts = "fst (Hosts (sim t))"
  let ?line = "PrintLine (name t) (Sprintf (infoRun t) (displayHostname (?hosts ! i)))"
  have "?line \<in> set (targetEvents t extIP (prevHostnameAt ?hosts i) (?hosts ! i))"
    using assms(2) by (simp add: targetEvents_def)
  moreover have "i \<in> set [0..<length ?hosts]"
    using assms(1) by simp
  ultimately have "?line \<in> set (concat (map (\<lambda>i. targetEvents t extIP (prevHostnameAt ?hosts i)
                                       (?hosts ! i)) [0..<length ?hosts]))"
    unfolding set_concat by (intro UN_I[where a = "targetEvents t extIP (prevHostnameAt ?hosts i) (?hosts ! i)"]) auto
  then show ?thesis
    unfolding runEntry_targets by simp
qed

lemma first_announcement_in_runEntry:
  assumes "fst (Hosts (sim t)) = host # rest" and "displayHostname host \<noteq> []"
  shows "PrintLine (name t) (Sprintf (infoRun t) (displayHostname host))
           \<in> set (runEntry w t extIP ival)"
  using announcement_in_runEntry[of 0 t w extIP ival] assms
  by (simp add: prevHostnameAt_def)

text \<open>
  C1. When \<open>Hosts\<close> fails for an entry \<open>s\<close> of the list given to \<open>run\<close>, the run goes on:
  \<open>run\<close> returns \<open>nil\<close> after emitting the events of the entries before \<open>s\<close>, of \<open>s\<close>
  itself with its failure line, and of every entry after \<open>s\<close>, up to the final message.
  What follows the failed entry is exactly what a run of the remaining entries alone
  emits after its header. Every later entry \<open>t\<close> is executed in full after the failed
  one: the events of the run contain, after those of \<open>s\<close> and before the final message,
  the start line of \<open>t\<close>, its phase descriptions, the wait, the call of \<open>Hosts\<close>, and for
  each of its targets in order the announcement (when the display hostname has
  changed), the call of \<open>Simulate\<close> and the pacing wait, then the completion line. So
  each target of a later entry is simulated, each target of a later entry whose display
  hostname differs from that of the target before is announced, and a first target
  with a non-empty display hostname is announced.
\<close>

theorem run_continues_after_failed_Hosts:
  "snd (Hosts (sim s)) = Some e \<Longrightarrow>
     run w (pre @ s # post) extIP ival =
       ([PrintWelcome extIP, PrintHeader] @ runLoop w pre extIP ival @ runEntry w s extIP ival
          @ runLoop w post extIP ival @ [PrintGoodbay], None)
     \<and> PrintLine (name s) (RedString w ''failed '' @ e) \<in> set (runEntry w s extIP ival)
     \<and> suffix (drop 2 (fst (run w post extIP ival))) (fst (run w (pre @ s # post) extIP ival))
     \<and> (\<forall>t \<in> set post.
           (\<exists>before after.
               runLoop w post extIP ival = before @ runEntry w t extIP ival @ after)
           \<and> (\<forall>host \<in> set (fst (Hosts (sim t))).
                 CallSimulate (sim t) extIP host
                   \<in> set (fst (run w (pre @ s # post) extIP ival)))
           \<and> (\<exists>before after.
                 fst (run w (pre @ s # post) extIP ival) =
                   [PrintWelcome extIP, PrintHeader] @ runLoop w pre extIP ival
                   @ runEntry w s extIP ival
                   @ before
                   @ PrintLine (name t) ''Starting'' # map (PrintLine (name t)) (infoHeaders t)
                   @ [Sleep ival, CallHosts (sim t)]
                   @ (case snd (Hosts (sim t)) of
                        Some e' \<Rightarrow> [PrintLine (name t) (RedString w ''failed '' @ e')]
                      | None \<Rightarrow> [])
                   @ concat (map (\<lambda>i. targetEvents t extIP
                                         (prevHostnameAt (fst (Hosts (sim t))) i)
                                         (fst (Hosts (sim t)) ! i))
                                 [0..<length (fst (Hosts (sim t)))])
                   @ [PrintLine (name t) ''Finished'']
                   @ after @ [PrintGoodbay])
           \<and> (\<forall>i. i < length (fst (Hosts (sim t)))
                    \<and> prevHostnameAt (fst (Hosts (sim t))) i
                        \<noteq> displayHostname (fst (Hosts (sim t)) ! i)
                 \<longrightarrow> PrintLine (name t)
                       (Sprintf (infoRun t) (displayHostname (fst (Hosts (sim t)) ! i)))
                       \<in> set (fst (run w (pre @ s # post) extIP ival)))
           \<and> (\<forall>host rest. fst (Hosts (sim t)) = host # rest \<and> displayHostname host \<noteq> []
                 \<longrightarrow> PrintLine (name t) (Sprintf (infoRun t) (displayHostname host))
                       \<in> set (fst (run w (pre @ s # post) extIP ival))))"
proof -
  assume e: "snd (Hosts (sim s)) = Some e"
  let ?trace = "fst (run w (pre @ s # post) extIP ival)"
  have 1: "PrintLine (name s) (RedString w ''failed '' @ e) \<in> set (runEntry w s extIP ival)"
    using e by (simp add: runEntry_events)
  have 2: "suffix (drop 2 (fst (run w post extIP ival))) ?trace"
    unfolding run_split by (simp add: run_def suffix_def)
  have sub: "set (runEntry w t extIP ival) \<subseteq> set ?trace" if "t \<in> set post" for t
  proof -
    from runEntry_in_runLoop[OF that] obtain b a where
      "runLoop w post extIP ival = b @ runEntry w t extIP ival @ a" by blast
    then show ?thesis by (auto simp: run_split)
  qed
  have 3: "CallSimulate (sim t) extIP host \<in> set ?trace"
    if "t \<in> set post" "host \<in> set (fst (Hosts (sim t)))" for t host
    using sub[OF that(1)] CallSimulate_in_runEntry[OF that(2), of extIP w ival] by blast
  have 4: "\<exists>before after.
             ?trace =
               [PrintWelcome extIP, PrintHeader] @ runLoop w pre extIP ival
               @ runEntry w s extIP ival
               @ before
               @ PrintLine (name t) ''Starting'' # map (PrintLine (name t)) (infoHeaders t)
               @ [Sleep ival, CallHosts (sim t)]
               @ (case snd (Hosts (sim t)) of
                    Some e' \<Rightarrow> [PrintLine (name t) (RedString w ''failed '' @ e')]
                  | None \<Rightarrow> [])
               @ concat (map (\<lambda>i. targetEvents t extIP
                                     (prevHostnameAt (fst (Hosts (sim t))) i)
                                     (fst (Hosts (sim t)) ! i))
                             [0..<length (fst (Hosts (sim t)))])
               @ [PrintLine (name t) ''Finished'']
               @ after @ [PrintGoodbay]"
    if "t \<in> set post" for t
  proof -
    from runEntry_in_runLoop[OF that] obtain b a where
      "runLoop w post extIP ival = b @ runEntry w t extIP ival @ a" by blast
    then have "?trace = [PrintWelcome extIP, PrintHeader] @ runLoop w pre extIP ival
               @ runEntry w s extIP ival @ b @ runEntry w t extIP ival @ a @ [PrintGoodbay]"
      by (simp add: run_split)
    then show ?thesis
      unfolding runEntry_targets[of w t] by (intro exI[of _ b] exI[of _ a]) simp
  qed
  have 5: "PrintLine (name t) (Sprintf (infoRun t) (displayHostname (fst (Hosts (sim t)) ! i)))
             \<in> set ?trace"
    if "t \<in> set post" "i < length (fst (Hosts (sim t)))"
       "prevHostnameAt (fst (Hosts (sim t))) i \<noteq> displayHostname (fst (Hosts (sim t)) ! i)"
    for t i
    using sub[OF that(1)] announcement_in_runEntry[OF that(2,3), of w extIP ival] by blast
  have 6: "PrintLine (name t) (Sprintf (infoRun t) (displayHostname host)) \<in> set ?trace"
    if "t \<in> set post" "fst (Hosts (sim t)) = host # rest" "displayHostname host \<noteq> []"
    for t host rest
    using sub[OF that(1)] first_announcement_in_runEntry[OF that(2,3), of w extIP ival] by blast
  have later: "\<forall>t \<in> set post.
           (\<exists>before after.
               runLoop w post extIP ival = before @ runEntry w t extIP ival @ after)
           \<and> (\<forall>host \<in> set (fst (Hosts (sim t))). CallSimulate (sim t) extIP host \<in> set ?trace)
           \<and> (\<exists>before after.
                 ?trace =
                   [PrintWelcome extIP, PrintHeader] @ runLoop w pre extIP ival
                   @ runEntry w s extIP ival
                   @ before
                   @ PrintLine (name t) ''Starting'' # map (PrintLine (name t)) (infoHeaders t)
                   @ [Sleep ival, CallHosts (sim t)]
                   @ (case snd (Hosts (sim t)) of
                        Some e' \<Rightarrow> [PrintLine (name t) (RedString w ''failed '' @ e')]
                      | None \<Rightarrow> [])
                   @ concat (map (\<lambda>i. targetEvents t extIP
                                         (prevHostnameAt (fst (Hosts (sim t))) i)
                                         (fst (Hosts (sim t)) ! i))
                                 [0..<length (fst (Hosts (sim t)))])
                   @ [PrintLine (name t) ''Finished'']
                   @ after @ [PrintGoodbay])
           \<and> (\<forall>i. i < length (fst (Hosts (sim t)))
                    \<and> prevHostnameAt (fst (Hosts (sim t))) i
                        \<noteq> displayHostname (fst (Hosts (sim t)) ! i)
                 \<longrightarrow> PrintLine (name t)
                       (Sprintf (infoRun t) (displayHostname (fst (Hosts (sim t)) ! i)))
                       \<in> set ?trace)
           \<and> (\<forall>host rest. fst (Hosts (sim t)) = host # rest \<and> displayHostname host \<noteq> []
                 \<longrightarrow> PrintLine (name t) (Sprintf (infoRun t) (displayHostname host))
                       \<in> set ?trace)"
  proof (intro ballI conjI allI impI)
    fix t assume t: "t \<in> set post"
    show "\<exists>before after. runLoop w post extIP ival = before @ runEntry w t extIP ival @ after"
      by (rule runEntry_in_runLoop[OF t])
    show "CallSimulate (sim t) extIP host \<in> set ?trace"
      if "host \<in> set (fst (Hosts (sim t)))" for host
      by (rule 3[OF t that])
    show "\<exists>before after.
             ?trace =
               [PrintWelcome extIP, PrintHeader] @ runLoop w pre extIP ival
               @ runEntry w s extIP ival
               @ before
               @ PrintLine (name t) ''Starting'' # map (PrintLine (name t)) (infoHeaders t)
               @ [Sleep ival, CallHosts (sim t)]
               @ (case snd (Hosts (sim t)) of
                    Some e' \<Rightarrow> [PrintLine (name t) (RedString w ''failed '' @ e')]
                  | None \<Rightarrow> [])
               @ concat (map (\<lambda>i. targetEvents t extIP
                                     (prevHostnameAt (fst (Hosts (sim t))) i)
                                     (fst (Hosts (sim t)) ! i))
                             [0..<length (fst (Hosts (sim t)))])
               @ [PrintLine (name t) ''Finished'']
               @ after @ [PrintGoodbay]"
      by (rule 4[OF t])
    show "PrintLine (name t) (Sprintf (infoRun t) (displayHostname (fst (Hosts (sim t)) ! i)))
             \<in> set ?trace"
      if "i < length (fst (Hosts (sim t)))
           \<and> prevHostnameAt (fst (Hosts (sim t))) i \<noteq> displayHostname (fst (Hosts (sim t)) ! i)"
      for i
      using 5[OF t, of i] that by blast
    show "PrintLine (name t) (Sprintf (infoRun t) (displayHostname host)) \<in> set ?trace"
      if "fst (Hosts (sim t)) = host # rest \<and> displayHostname host \<noteq> []" for host rest
      using 6[OF t, of host rest] that by blast
  qed
  from run_split[of w pre s post extIP ival] 1 2 later show ?thesis
    by (intro conjI)
qed

theorem run_continues_after_failed_Hosts_witness:
  "snd (Hosts (sim (allsimualtors exampleWorld ! 1))) = Some ''boom''
   \<and> PrintLine ''tunnel'' ''Resolving c''
        \<in> set (fst (run exampleWorld
                        [allsimualtors exampleWorld ! 1, allsimualtors exampleWorld ! 3]
                        [10, 0, 0, 1] 0))
   \<and> CallSimulate (NewTunnel exampleWorld) [10, 0, 0, 1] ''c''
        \<in> set (fst (run exampleWorld
                        [allsimualtors exampleWorld ! 1, allsimualtors exampleWorld ! 3]
                        [10, 0, 0, 1] 0))"
proof -
  let ?dga = "allsimualtors exampleWorld ! 1"
  let ?tunnel = "allsimualtors exampleWorld ! 3"
  let ?trace = "fst (run exampleWorld ([] @ ?dga # [?tunnel]) [10, 0, 0, 1] 0)"
  have h: "snd (Hosts (sim ?dga)) = Some ''boom''"
    by (simp add: allsimualtors_def exampleWorld_def)
  have hosts: "fst (Hosts (sim ?tunnel)) = ['':80'', ''c'']"
    by (simp add: allsimualtors_def exampleWorld_def)
  have c: "''c'' \<in> set (fst (Hosts (sim ?tunnel)))"
    by (simp add: hosts)
  have nm: "name ?tunnel = ''tunnel''" "infoRun ?tunnel = ''Resolving %s''"
    "sim ?tunnel = NewTunnel exampleWorld"
    by (simp_all add: allsimualtors_def)
  have d: "displayHostname '':80'' = []" "displayHostname ''c'' = ''c''"
    by (simp_all add: displayHostname_def SplitHostPort_def splitTail_def addrErr_def Let_def)
  have m: "?tunnel \<in> set [?tunnel]" by simp
  note later = run_continues_after_failed_Hosts[OF h, of exampleWorld "[]" "[?tunnel]" "[10, 0, 0, 1]" 0,
      THEN conjunct2, THEN conjunct2, THEN conjunct2, THEN bspec, OF m]
  from later have sim: "\<forall>host \<in> set (fst (Hosts (sim ?tunnel))).
      CallSimulate (sim ?tunnel) [10, 0, 0, 1] host \<in> set ?trace"
    by (elim conjE)
  from later have ann: "\<forall>i. i < length (fst (Hosts (sim ?tunnel)))
        \<and> prevHostnameAt (fst (Hosts (sim ?tunnel))) i
            \<noteq> displayHostname (fst (Hosts (sim ?tunnel)) ! i)
      \<longrightarrow> PrintLine (name ?tunnel)
            (Sprintf (infoRun ?tunnel) (displayHostname (fst (Hosts (sim ?tunnel)) ! i)))
            \<in> set ?trace"
    by (elim conjE)
  from bspec[OF sim c] have 1: "CallSimulate (NewTunnel exampleWorld) [10, 0, 0, 1] ''c'' \<in> set ?trace"
    by (simp only: nm)
  from ann[THEN spec, of 1] have 2: "PrintLine ''tunnel'' ''Resolving c'' \<in> set ?trace"
    unfolding hosts by (simp add: nm prevHostnameAt_def d Sprintf_def)
  from h 1 2 show ?thesis by simp
qed

text \<open>
  C8, as the code has it. In normal mode \<open>RunE\<close> passes two seconds to \<open>run\<close>, and for
  every selected entry \<open>s\<close> the wait of two seconds comes after the entry's start line and
  its phase descriptions, and before the call of \<open>Hosts\<close>.
\<close>

theorem inter_entry_wait_follows_phase_descriptions:
  "\<not> fast vars \<and> checkArgs (simulatorNames vars) args = None
   \<and> ExternalIP w (ifaceName vars) = Inr extIP
   \<and> selectSimulators w (if length args > 0 then args else simulatorNames vars) = pre @ s # post
   \<longrightarrow> fst (RunE w vars args) =
         [CallExternalIP (ifaceName vars), PrintWelcome extIP, PrintHeader]
         @ runLoop w pre extIP (2 * Second)
         @ [PrintLine (name s) ''Starting'']
         @ map (PrintLine (name s)) (infoHeaders s)
         @ [Sleep (2 * Second), CallHosts (sim s)]
         @ (case snd (Hosts (sim s)) of
              Some e \<Rightarrow> [PrintLine (name s) (RedString w ''failed '' @ e)]
            | None \<Rightarrow> [])
         @ hostsLoop s extIP [] (fst (Hosts (sim s)))
         @ [PrintLine (name s) ''Finished'']
         @ runLoop w post extIP (2 * Second)
         @ [PrintGoodbay]"
  by (auto simp: RunE_def Let_def run_split runEntry_events)

theorem inter_entry_wait_follows_phase_descriptions_witness:
  "\<not> fast (newRunCommand False ''eth0'')
   \<and> checkArgs (simulatorNames (newRunCommand False ''eth0'')) [''scan'', ''dga''] = None
   \<and> ExternalIP exampleWorld (ifaceName (newRunCommand False ''eth0'')) = Inr [10, 0, 0, 1]
   \<and> selectSimulators exampleWorld [''scan'', ''dga'']
       = [allsimualtors exampleWorld ! 1] @ allsimualtors exampleWorld ! 2 # []
   \<and> fst (RunE exampleWorld (newRunCommand False ''eth0'') [''scan'', ''dga'']) =
       [CallExternalIP ''eth0'', PrintWelcome [10, 0, 0, 1], PrintHeader,
        PrintLine ''dga'' ''Starting'',
        PrintLine ''dga'' ''Generating list of DGA domains'',
        Sleep 2000000000,
        CallHosts (NewDGA exampleWorld),
        PrintLine ''dga'' ''failed boom'',
        PrintLine ''dga'' ''Finished'',
        PrintLine ''scan'' ''Starting'',
        PrintLine ''scan'' ''Preparing random sample of RFC 1918 destinations'',
        PrintLine ''scan'' ''Preparing random sample of common TCP destination ports'',
        Sleep 2000000000,
        CallHosts (NewPortScan exampleWorld),
        PrintLine ''scan'' ''failed bad'',
        PrintLine ''scan'' ''Port scanning x'',
        CallSimulate (NewPortScan exampleWorld) [10, 0, 0, 1] ''x:1'',
        Sleep 0,
        PrintLine ''scan'' ''Finished'',
        PrintGoodbay]"
  using inter_entry_wait_follows_phase_descriptions
          [of "newRunCommand False ''eth0''" "[''scan'', ''dga'']" exampleWorld "[10, 0, 0, 1]"
              "[allsimualtors exampleWorld ! 1]" "allsimualtors exampleWorld ! 2" "[]"]
  by (simp add: newRunCommand_def exampleWorld_def selectSimulators_def allsimualtors_def
      runEntry_def printMsg_def displayHostname_def SplitHostPort_def splitTail_def
      addrErr_def Let_def Sprintf_def RedString_def Second_def Millisecond_def)

text \<open>
  C8 as stated fails: with \<open>run dga\<close> in normal mode the phase description of the entry
  is printed before the wait of two seconds, not after it.
\<close>

theorem phase_descriptions_precede_inter_entry_wait:
  "fst (RunE exampleWorld (newRunCommand False []) [''dga'']) =
     [CallExternalIP [], PrintWelcome [10, 0, 0, 1], PrintHeader,
      PrintLine ''dga'' ''Starting'',
      PrintLine ''dga'' ''Generating list of DGA domains'',
      Sleep 2000000000,
      CallHosts \<lparr>Hosts = ([], Some ''boom'')\<rparr>,
      PrintLine ''dga'' ''failed boom'',
      PrintLine ''dga'' ''Finished'',
      PrintGoodbay]"
  by (simp add: RunE_def newRunCommand_def exampleWorld_def selectSimulators_def
      allsimualtors_def zeroIntervals_def run_def runEntry_def printMsg_def
      displayHostname_def SplitHostPort_def splitTail_def addrErr_def Let_def Sprintf_def
      RedString_def Second_def Millisecond_def)

subsection \<open>Selection, argument check and pacing\<close>

lemma selectLoop_filter:
  "selectLoop names acc xs = acc @ filter (\<lambda>s. name s \<in> set names) xs"
  by (induction xs arbitrary: acc) (simp_all add: StringsContains_iff)

lemma selectSimulators_filter:
  "selectSimulators w names = filter (\<lambda>s. name s \<in> set names) (allsimualtors w)"
  by (simp add: selectSimulators_def selectLoop_filter)

lemma catalog_names:
  "map name (allsimualtors w) = [''c2-dns'', ''dga'', ''scan'', ''tunnel'']"
  by (simp add: allsimualtors_def)

lemma checkArgs_None: "checkArgs known args = None \<longleftrightarrow> set args \<subseteq> set known"
  by (induction args) (auto simp: StringsContains_iff)

lemma Sprintf_not_recognized:
  "Sprintf ''simulator %s not recognized'' a = ''simulator '' @ a @ '' not recognized''"
  by (simp add: Sprintf_def)

lemma checkArgs_Some:
  "checkArgs known args = Some err \<Longrightarrow>
     \<exists>a \<in> set args. a \<notin> set known \<and> err = ''simulator '' @ a @ '' not recognized''"
  by (induction args) (auto simp: StringsContains_iff Sprintf_not_recognized split: if_splits)

lemma Sleep_in_hostsLoop:
  "Sleep d \<in> set (hostsLoop s extIP prev hosts) \<Longrightarrow> d = interval s"
  by (induction hosts arbitrary: prev) (auto simp: printMsg_def Let_def split: if_splits)

lemma Sleep_in_runEntry:
  "Sleep d \<in> set (runEntry w s extIP ival) \<Longrightarrow> d = ival \<or> d = interval s"
  unfolding runEntry_events
  by (auto split: option.splits dest: Sleep_in_hostsLoop)

lemma Sleep_in_runLoop:
  "Sleep d \<in> set (runLoop w simulators extIP ival) \<Longrightarrow>
     d = ival \<or> d \<in> interval ` set simulators"
  by (induction simulators) (auto dest: Sleep_in_runEntry)

lemma interval_zeroIntervals: "s \<in> set (zeroIntervals simulators) \<Longrightarrow> interval s = 0"
  by (auto simp: zeroIntervals_def)

lemma RunE_ok:
  "checkArgs (simulatorNames vars) args = None \<Longrightarrow> ExternalIP w (ifaceName vars) = Inr extIP \<Longrightarrow>
   RunE w vars args =
     (CallExternalIP (ifaceName vars)
        # fst (run w (if fast vars
                      then zeroIntervals (selectSimulators w (if length args > 0 then args else simulatorNames vars))
                      else selectSimulators w (if length args > 0 then args else simulatorNames vars))
                  extIP (if fast vars then 0 else 2 * Second)),
      None,
      (if length args > 0 then vars\<lparr>simulatorNames := args\<rparr> else vars))"
  by (cases "args = []") (simp_all add: RunE_def Let_def)

lemma RunE_no_address:
  "checkArgs (simulatorNames vars) args = None \<Longrightarrow> ExternalIP w (ifaceName vars) = Inl err \<Longrightarrow>
   RunE w vars args =
     ([CallExternalIP (ifaceName vars)], Some err,
      (if length args > 0 then vars\<lparr>simulatorNames := args\<rparr> else vars))"
  by (cases "args = []") (simp_all add: RunE_def Let_def)

text \<open>
  C2. \<open>selectSimulators\<close> returns the catalog entries whose name is among the requested
  names, in catalog order: the result is the catalog filtered by membership, a
  subsequence of the catalog, and depends only on the set of requested names, not on
  their order or repetition. When every requested name is a catalog key, the names of
  the result are exactly the requested names. Requesting \<open>tunnel\<close>, \<open>c2-dns\<close> yields the
  first and the fourth catalog entry, in that order.
\<close>

theorem selectSimulators_catalog_order:
  "selectSimulators w names = filter (\<lambda>s. name s \<in> set names) (allsimualtors w)
   \<and> subseq (selectSimulators w names) (allsimualtors w)
   \<and> (set names = set names' \<longrightarrow> selectSimulators w names = selectSimulators w names')
   \<and> (set names \<subseteq> set (map name (allsimualtors w)) \<longrightarrow>
        set (map name (selectSimulators w names)) = set names)
   \<and> selectSimulators w [''tunnel'', ''c2-dns''] = [allsimualtors w ! 0, allsimualtors w ! 3]"
proof -
  have 1: "subseq (selectSimulators w names) (allsimualtors w)"
    by (simp add: selectSimulators_filter)
  have 2: "set (map name (selectSimulators w names)) = set names"
    if "set names \<subseteq> set (map name (allsimualtors w))"
    using that by (auto simp: selectSimulators_filter)
  have 3: "selectSimulators w [''tunnel'', ''c2-dns''] = [allsimualtors w ! 0, allsimualtors w ! 3]"
    by (simp add: selectSimulators_def allsimualtors_def)
  show ?thesis
    using 1 2 3 by (simp add: selectSimulators_filter)
qed

theorem selectSimulators_catalog_order_witness:
  "set [''tunnel'', ''c2-dns''] = set [''c2-dns'', ''tunnel'', ''tunnel'']
   \<and> selectSimulators exampleWorld [''tunnel'', ''c2-dns'']
       = selectSimulators exampleWorld [''c2-dns'', ''tunnel'', ''tunnel'']
   \<and> set [''tunnel'', ''c2-dns''] \<subseteq> set (map name (allsimualtors exampleWorld))
   \<and> map name (selectSimulators exampleWorld [''tunnel'', ''c2-dns'']) = [''c2-dns'', ''tunnel'']"
proof -
  have a: "set [''tunnel'', ''c2-dns''] = set [''c2-dns'', ''tunnel'', ''tunnel'']"
    by auto
  have b: "set [''tunnel'', ''c2-dns''] \<subseteq> set (map name (allsimualtors exampleWorld))"
    by (simp add: catalog_names)
  note t = selectSimulators_catalog_order[of exampleWorld "[''tunnel'', ''c2-dns'']" "[''c2-dns'', ''tunnel'', ''tunnel'']"]
  from t a have 1: "selectSimulators exampleWorld [''tunnel'', ''c2-dns'']
       = selectSimulators exampleWorld [''c2-dns'', ''tunnel'', ''tunnel'']"
    by blast
  from t have "selectSimulators exampleWorld [''tunnel'', ''c2-dns'']
       = [allsimualtors exampleWorld ! 0, allsimualtors exampleWorld ! 3]"
    by blast
  then have 2: "map name (selectSimulators exampleWorld [''tunnel'', ''c2-dns'']) = [''c2-dns'', ''tunnel'']"
    by (simp add: allsimualtors_def)
  from a b 1 2 show ?thesis by blast
qed

text \<open>
  C3. When an argument is not a catalog key, \<open>RunE\<close> returns the error for such an
  argument with no event at all: \<open>ExternalIP\<close> is not called, no entry runs, no method of
  a Simulator is called, and the captured variables are unchanged. When all arguments
  are catalog keys and \<open>ExternalIP\<close> fails, \<open>RunE\<close> returns that error and its only event
  is the call of \<open>ExternalIP\<close>.
\<close>

theorem RunE_rejects_before_running:
  "(\<not> set args \<subseteq> set (map name (allsimualtors w)) \<longrightarrow>
      (\<exists>a \<in> set args. a \<notin> set (map name (allsimualtors w))
          \<and> RunE w (newRunCommand fastFlag iface) args =
              ([], Some (''simulator '' @ a @ '' not recognized''), newRunCommand fastFlag iface)))
   \<and> (set args \<subseteq> set (map name (allsimualtors w)) \<and> ExternalIP w iface = Inl err \<longrightarrow>
        fst (RunE w (newRunCommand fastFlag iface) args) = [CallExternalIP iface]
        \<and> fst (snd (RunE w (newRunCommand fastFlag iface) args)) = Some err)"
proof -
  let ?vars = "newRunCommand fastFlag iface"
  have names: "simulatorNames ?vars = map name (allsimualtors w)"
    by (simp add: newRunCommand_def catalog_names)
  have 1: "\<exists>a \<in> set args. a \<notin> set (map name (allsimualtors w))
          \<and> RunE w ?vars args = ([], Some (''simulator '' @ a @ '' not recognized''), ?vars)"
    if "\<not> set args \<subseteq> set (map name (allsimualtors w))"
  proof -
    from that have "checkArgs (simulatorNames ?vars) args \<noteq> None"
      unfolding names by (simp add: checkArgs_None)
    then obtain e where e: "checkArgs (simulatorNames ?vars) args = Some e" by blast
    from checkArgs_Some[OF e] obtain a where
      "a \<in> set args" "a \<notin> set (simulatorNames ?vars)" "e = ''simulator '' @ a @ '' not recognized''"
      by blast
    moreover from e have "RunE w ?vars args = ([], Some e, ?vars)"
      by (simp add: RunE_def)
    ultimately show ?thesis unfolding names by blast
  qed
  have 2: "fst (RunE w ?vars args) = [CallExternalIP iface]
        \<and> fst (snd (RunE w ?vars args)) = Some err"
    if "set args \<subseteq> set (map name (allsimualtors w))" "ExternalIP w iface = Inl err"
  proof -
    from that(1) have "checkArgs (simulatorNames ?vars) args = None"
      unfolding names by (simp add: checkArgs_None)
    moreover have "ifaceName ?vars = iface" by (simp add: newRunCommand_def)
    ultimately show ?thesis using that(2)
      by (simp add: RunE_def Let_def newRunCommand_def)
  qed
  show ?thesis using 1 2 by blast
qed

theorem RunE_rejects_before_running_witness:
  "\<not> set [''tunnel'', ''c3-dns''] \<subseteq> set (map name (allsimualtors exampleWorld))
   \<and> RunE exampleWorld (newRunCommand False []) [''tunnel'', ''c3-dns'']
       = ([], Some ''simulator c3-dns not recognized'', newRunCommand False [])
   \<and> set [''tunnel''] \<subseteq> set (map name (allsimualtors exampleWorld))
   \<and> ExternalIP exampleWorld ''eth9'' = Inl ''no such interface''
   \<and> fst (RunE exampleWorld (newRunCommand False ''eth9'') [''tunnel'']) = [CallExternalIP ''eth9'']
   \<and> fst (snd (RunE exampleWorld (newRunCommand False ''eth9'') [''tunnel'']))
       = Some ''no such interface''"
proof -
  have a: "\<not> set [''tunnel'', ''c3-dns''] \<subseteq> set (map name (allsimualtors exampleWorld))"
    by (simp add: catalog_names)
  have b: "set [''tunnel''] \<subseteq> set (map name (allsimualtors exampleWorld))"
    by (simp add: catalog_names)
  have c: "ExternalIP exampleWorld ''eth9'' = Inl ''no such interface''"
    by (simp add: exampleWorld_def)
  from RunE_rejects_before_running[where args = "[''tunnel'', ''c3-dns'']" and w = exampleWorld and iface = "[]"
                  and fastFlag = False] a
  obtain x where x: "x \<in> set [''tunnel'', ''c3-dns'']"
      "x \<notin> set (map name (allsimualtors exampleWorld))"
      "RunE exampleWorld (newRunCommand False []) [''tunnel'', ''c3-dns'']
         = ([], Some (''simulator '' @ x @ '' not recognized''), newRunCommand False [])"
    by blast
  from x(1,2) have "x = ''c3-dns''" by (auto simp: catalog_names)
  with x(3) have 1: "RunE exampleWorld (newRunCommand False []) [''tunnel'', ''c3-dns'']
       = ([], Some ''simulator c3-dns not recognized'', newRunCommand False [])"
    by simp
  from RunE_rejects_before_running[where args = "[''tunnel'']" and w = exampleWorld and iface = "''eth9''"
                  and err = "''no such interface''" and fastFlag = False] b c
  have 2: "fst (RunE exampleWorld (newRunCommand False ''eth9'') [''tunnel'']) = [CallExternalIP ''eth9'']
      \<and> fst (snd (RunE exampleWorld (newRunCommand False ''eth9'') [''tunnel'']))
           = Some ''no such interface''"
    by blast
  from a b c 1 2 show ?thesis by blast
qed

text \<open>
  C7. With no arguments the command keeps the default list of names, and the selection
  for it is the whole catalog in catalog order. \<open>RunE\<close> without arguments does what
  \<open>RunE\<close> with every catalog name as arguments does, and when the address is resolved it
  runs the whole catalog.
\<close>

theorem no_arguments_select_whole_catalog:
  "selectSimulators w (simulatorNames (newRunCommand fastFlag iface)) = allsimualtors w
   \<and> RunE w (newRunCommand fastFlag iface) []
       = RunE w (newRunCommand fastFlag iface) (map name (allsimualtors w))
   \<and> (ExternalIP w iface = Inr extIP \<longrightarrow>
        fst (RunE w (newRunCommand fastFlag iface) []) =
          CallExternalIP iface
            # fst (run w (if fastFlag then zeroIntervals (allsimualtors w) else allsimualtors w)
                     extIP (if fastFlag then 0 else 2 * Second)))"
proof -
  let ?vars = "newRunCommand fastFlag iface"
  have sel: "selectSimulators w (simulatorNames ?vars) = allsimualtors w"
    by (simp add: newRunCommand_def selectSimulators_def allsimualtors_def)
  have chk: "checkArgs (simulatorNames ?vars) [] = None" by simp
  have chk': "checkArgs (simulatorNames ?vars) (map name (allsimualtors w)) = None"
    by (simp add: checkArgs_None newRunCommand_def catalog_names)
  have same: "?vars\<lparr>simulatorNames := map name (allsimualtors w)\<rparr> = ?vars"
    by (simp add: newRunCommand_def catalog_names)
  have eq: "RunE w ?vars [] = RunE w ?vars (map name (allsimualtors w))"
    using chk' same catalog_names[of w] 
    by (simp add: RunE_def Let_def newRunCommand_def)
  have 3: "fst (RunE w ?vars []) =
          CallExternalIP iface
            # fst (run w (if fastFlag then zeroIntervals (allsimualtors w) else allsimualtors w)
                     extIP (if fastFlag then 0 else 2 * Second))"
    if "ExternalIP w iface = Inr extIP"
    using that sel by (simp add: RunE_def Let_def newRunCommand_def)
  show ?thesis using sel eq 3 by blast
qed

theorem no_arguments_select_whole_catalog_witness:
  "ExternalIP exampleWorld [] = Inr [10, 0, 0, 1]
   \<and> fst (RunE exampleWorld (newRunCommand True []) []) =
       CallExternalIP []
         # fst (run exampleWorld (zeroIntervals (allsimualtors exampleWorld)) [10, 0, 0, 1] 0)"
proof -
  have a: "ExternalIP exampleWorld [] = Inr [10, 0, 0, 1]"
    by (simp add: exampleWorld_def)
  from no_arguments_select_whole_catalog[where w = exampleWorld and fastFlag = True and iface = "[]"
                  and extIP = "[10, 0, 0, 1]"] a
  have "fst (RunE exampleWorld (newRunCommand True []) []) =
       CallExternalIP []
         # fst (run exampleWorld
                  (if True then zeroIntervals (allsimualtors exampleWorld)
                   else allsimualtors exampleWorld)
                  [10, 0, 0, 1] (if True then 0 else 2 * Second))"
    by blast
  with a show ?thesis by (simp only: if_True simp_thms)
qed

text \<open>
  C9. In fast mode every \<open>Sleep\<close> event of \<open>RunE\<close> has duration zero: \<open>run\<close> is called with
  the interval 0 and with entries whose own intervals are all 0.
\<close>

theorem fast_mode_sleeps_are_zero:
  "fast vars \<Longrightarrow>
     (\<forall>d. Sleep d \<in> set (fst (RunE w vars args)) \<longrightarrow> d = 0)
     \<and> (checkArgs (simulatorNames vars) args = None \<and> ExternalIP w (ifaceName vars) = Inr extIP
          \<longrightarrow> fst (RunE w vars args) =
                CallExternalIP (ifaceName vars)
                  # fst (run w (zeroIntervals (selectSimulators w
                                   (if length args > 0 then args else simulatorNames vars)))
                           extIP 0)
              \<and> (\<forall>s \<in> set (zeroIntervals (selectSimulators w
                                   (if length args > 0 then args else simulatorNames vars))).
                    interval s = 0))"
proof -
  assume f: "fast vars"
  have 1: "d = 0" if "Sleep d \<in> set (fst (RunE w vars args))" for d
  proof (cases "checkArgs (simulatorNames vars) args")
    case (Some err)
    with that show ?thesis by (simp add: RunE_def)
  next
    case None
    show ?thesis
    proof (cases "ExternalIP w (ifaceName vars)")
      case (Inl err)
      with that RunE_no_address[OF None Inl] show ?thesis by simp
    next
      case (Inr extIP)
      let ?sel = "zeroIntervals (selectSimulators w (if length args > 0 then args else simulatorNames vars))"
      from that RunE_ok[OF None Inr] f
      have "Sleep d \<in> set (runLoop w ?sel extIP 0)"
        by (simp add: run_def)
      from Sleep_in_runLoop[OF this] show ?thesis
        by (auto dest: interval_zeroIntervals)
    qed
  qed
  have 2: "fst (RunE w vars args) =
                CallExternalIP (ifaceName vars)
                  # fst (run w (zeroIntervals (selectSimulators w
                                   (if length args > 0 then args else simulatorNames vars)))
                           extIP 0)"
    if "checkArgs (simulatorNames vars) args = None" "ExternalIP w (ifaceName vars) = Inr extIP"
    using RunE_ok[OF that] f by simp
  show ?thesis
    using 1 2 interval_zeroIntervals by blast
qed

theorem fast_mode_sleeps_are_zero_witness:
  "fast (newRunCommand True [])
   \<and> Sleep 500000000 \<notin> set (fst (RunE exampleWorld (newRunCommand True []) [''c2-dns'']))
   \<and> Sleep 0 \<in> set (fst (RunE exampleWorld (newRunCommand True []) [''c2-dns'']))"
proof -
  have f: "fast (newRunCommand True [])" by (simp add: newRunCommand_def)
  have z: "Sleep 0 \<in> set (fst (RunE exampleWorld (newRunCommand True []) [''c2-dns'']))"
    by (simp add: RunE_def newRunCommand_def exampleWorld_def selectSimulators_def
      allsimualtors_def zeroIntervals_def run_def runEntry_def printMsg_def Let_def)
  from fast_mode_sleeps_are_zero[OF f, of exampleWorld "[''c2-dns'']" "[10, 0, 0, 1]"]
  have "\<forall>d. Sleep d \<in> set (fst (RunE exampleWorld (newRunCommand True []) [''c2-dns''])) \<longrightarrow> d = 0"
    by (elim conjE)
  then have "Sleep 500000000 \<notin> set (fst (RunE exampleWorld (newRunCommand True []) [''c2-dns'']))"
    by fastforce
  with f z show ?thesis by blast
qed

subsection \<open>The memory model\<close>

lemma builds_nil: "builds h0 h0 nilSlice []"
  by (simp add: builds_def nilSlice_def)

lemma appendSlice_builds:
  assumes "builds h0 h sl acc" and "appendSlice g h sl c = (h', sl')"
  shows "builds h0 h' sl' (acc @ [c])"
proof (cases "len sl < cap sl")
  case True
  with assms(1) have fresh: "length h0 \<le> ptr sl" "ptr sl < length h" "cap sl = length (h ! ptr sl)"
    and pre: "take (length h0) h = h0" "length h0 \<le> length h" "len sl = length acc"
    and acc: "take (len sl) (array h (ptr sl)) = acc"
    by (auto simp: builds_def)
  from True assms(2) have h': "h' = h[ptr sl := (h ! ptr sl)[len sl := c]]"
    and sl': "sl' = sl\<lparr>len := len sl + 1\<rparr>"
    using fresh by (auto simp: appendSlice_def store_def)
  have "take (length h0) h' = h0"
    using fresh pre by (simp add: h')
  moreover have "take (len sl + 1) (array h' (ptr sl)) = acc @ [c]"
    using True fresh acc by (simp add: h' array_def take_Suc_conv_app_nth)
  ultimately show ?thesis
    using True fresh pre by (simp add: builds_def h' sl')
next
  case False
  with assms(1) have pre: "take (length h0) h = h0" "length h0 \<le> length h" "len sl = length acc"
    and acc: "take (len sl) (array h (ptr sl)) = acc"
    by (auto simp: builds_def)
  let ?newcap = "max (len sl + 1) (g (cap sl))"
  let ?arr = "acc @ [c] @ replicate (?newcap - (len sl + 1)) None"
  from False assms(2) acc have h': "h' = h @ [?arr]"
    and sl': "sl' = \<lparr>ptr = length h, len = len sl + 1, cap = ?newcap\<rparr>"
    by (auto simp: appendSlice_def Let_def)
  have "take (length h0) h' = h0"
    using pre by (simp add: h')
  moreover have "length ?arr = ?newcap"
    using pre by simp
  moreover have "take (len sl + 1) ?arr = acc @ [c]"
    using pre by simp
  ultimately show ?thesis
    using pre by (simp add: builds_def h' sl' array_def del: replicate.simps)
qed

lemma index_frame:
  "take (length h0) h = h0 \<Longrightarrow> ptr cat < length h0 \<Longrightarrow> index h cat i = index h0 cat i"
proof -
  assume a: "take (length h0) h = h0" "ptr cat < length h0"
  then have "length h0 \<le> length h"
    by (metis length_take min.cobounded1 min.commute nat_le_linear take_all)
  moreover have "h ! ptr cat = h0 ! ptr cat"
    using a by (metis nth_take)
  ultimately show ?thesis using a by (simp add: index_def array_def)
qed

lemma selectLoopM_builds:
  assumes "builds h0 h sl acc" and "ptr cat < length h0"
      and "selectLoopM g names cat is (h, sl) = (h', sl')"
  shows "builds h0 h' sl'
           (acc @ filter (\<lambda>c. StringsContains names (cellName c)) (map (index h0 cat) is))"
  using assms
proof (induction "is" arbitrary: h sl acc)
  case Nil
  then show ?case by simp
next
  case (Cons i rest)
  have fr: "index h cat i = index h0 cat i"
    using Cons.prems(1,2) by (simp add: index_frame builds_def)
  show ?case
  proof (cases "StringsContains names (cellName (index h0 cat i))")
    case True
    obtain h1 sl1 where ap: "appendSlice g h sl (index h0 cat i) = (h1, sl1)"
      by (cases "appendSlice g h sl (index h0 cat i)")
    from appendSlice_builds[OF Cons.prems(1) ap]
    have b1: "builds h0 h1 sl1 (acc @ [index h0 cat i])" .
    from Cons.prems(3) True fr ap have "selectLoopM g names cat rest (h1, sl1) = (h', sl')"
      by (simp add: Let_def)
    from Cons.IH[OF b1 Cons.prems(2) this] True show ?thesis by simp
  next
    case False
    from Cons.prems(3) False fr have "selectLoopM g names cat rest (h, sl) = (h', sl')"
      by (simp add: Let_def)
    from Cons.IH[OF Cons.prems(1,2) this] False show ?thesis by simp
  qed
qed

lemma zeroLoopM_foldl:
  assumes "ptr sl < length h" and "\<forall>i \<in> set is. i < length (h ! ptr sl)"
  shows "zeroLoopM sl is h =
           h[ptr sl := foldl (\<lambda>a i. a[i := zeroCell (a ! i)]) (h ! ptr sl) is]"
  using assms
proof (induction "is" arbitrary: h)
  case Nil
  then show ?case by simp
next
  case (Cons i rest)
  let ?h1 = "h[ptr sl := (h ! ptr sl)[i := zeroCell ((h ! ptr sl) ! i)]]"
  have step: "store h sl i (map_option (\<lambda>s. s\<lparr>interval := 0\<rparr>) (index h sl i)) = ?h1"
    using Cons.prems by (simp add: store_def index_def array_def zeroCell_def)
  have "zeroLoopM sl rest ?h1 =
          ?h1[ptr sl := foldl (\<lambda>a i. a[i := zeroCell (a ! i)]) (?h1 ! ptr sl) rest]"
    using Cons.prems by (intro Cons.IH) auto
  then show ?case
    using Cons.prems(1) by (simp add: step zeroCell_def)
qed

lemma foldl_zero_upt:
  "n \<le> length a \<Longrightarrow>
     foldl (\<lambda>a i. a[i := zeroCell (a ! i)]) a [0..<n] = map zeroCell (take n a) @ drop n a"
proof (induction n)
  case 0
  then show ?case by simp
next
  case (Suc n)
  then have n: "n < length a" by simp
  have "(map zeroCell (take n a) @ drop n a)[n := zeroCell ((map zeroCell (take n a) @ drop n a) ! n)]
          = map zeroCell (take (Suc n) a) @ drop (Suc n) a"
    using n by (simp add: nth_append list_update_append take_Suc_conv_app_nth
                          Cons_nth_drop_Suc[symmetric])
  with Suc show ?case by simp
qed

lemma zeroIntervalsM_builds:
  assumes "builds h0 h sl acc"
  shows "builds h0 (zeroIntervalsM sl h) sl (map zeroCell acc)"
proof (cases "cap sl = 0")
  case True
  with assms have "len sl = 0" "acc = []" by (auto simp: builds_def)
  with assms show ?thesis by (simp add: zeroIntervalsM_def)
next
  case False
  with assms have fresh: "length h0 \<le> ptr sl" "ptr sl < length h" "cap sl = length (h ! ptr sl)"
    and pre: "take (length h0) h = h0" "length h0 \<le> length h" "len sl = length acc"
       "len sl \<le> cap sl"
    and acc: "take (len sl) (h ! ptr sl) = acc"
    by (auto simp: builds_def array_def)
  have "zeroIntervalsM sl h =
          h[ptr sl := map zeroCell (take (len sl) (h ! ptr sl)) @ drop (len sl) (h ! ptr sl)]"
    unfolding zeroIntervalsM_def
    using fresh pre by (subst zeroLoopM_foldl) (auto simp: foldl_zero_upt)
  then show ?thesis
    using fresh pre acc False by (simp add: builds_def array_def)
qed

lemma those_map_Some: "those (map Some xs) = Some xs"
  by (induction xs) simp_all

lemma elements_builds:
  assumes "builds h0 h sl (map Some xs)"
  shows "elements h sl = Some xs"
proof -
  from assms have l: "len sl = length xs" and t: "take (len sl) (array h (ptr sl)) = map Some xs"
    by (auto simp: builds_def)
  from t l have le: "len sl \<le> length (array h (ptr sl))"
    by (metis length_map length_take min.absorb_iff2 min.commute)
  have "map (index h sl) [0..<len sl] = take (len sl) (array h (ptr sl))"
    using le by (intro nth_equalityI) (auto simp: index_def)
  then show ?thesis
    by (simp add: elements_def t those_map_Some)
qed

lemma catalog_cells:
  assumes "catalogAt w m"
  shows "map (index (heap m) (catalog m)) [0..<len (catalog m)] = map Some (allsimualtors w)"
proof -
  from assms have a: "array (heap m) (ptr (catalog m)) = map Some (allsimualtors w)"
    and l: "len (catalog m) = 4"
    by (auto simp: catalogAt_def)
  have "length (allsimualtors w) = 4" by (simp add: allsimualtors_def)
  then show ?thesis
    unfolding l by (intro nth_equalityI) (auto simp: index_def a)
qed

lemma filter_cells:
  "filter (\<lambda>c. StringsContains names (cellName c)) (map Some xs)
     = map Some (filter (\<lambda>s. name s \<in> set names) xs)"
  by (induction xs) (simp_all add: cellName_def StringsContains_iff)

lemma selectSimulatorsM_builds:
  assumes "catalogAt w m" and "selectSimulatorsM g names m = (h1, sl)"
  shows "builds (heap m) h1 sl (map Some (selectSimulators w names))"
proof -
  from assms(1) have p: "ptr (catalog m) < length (heap m)" by (simp add: catalogAt_def)
  from selectLoopM_builds[OF builds_nil p assms(2)[unfolded selectSimulatorsM_def]]
  show ?thesis
    by (simp add: catalog_cells[OF assms(1)] filter_cells selectSimulators_filter)
qed

lemma zeroCell_map_Some: "map zeroCell (map Some xs) = map Some (zeroIntervals xs)"
  by (simp add: zeroCell_def zeroIntervals_def)

lemma catalogAt_frame:
  assumes "catalogAt w m" and "take (length (heap m)) h = heap m"
  shows "catalogAt w (m\<lparr>heap := h\<rparr>)"
proof -
  from assms have p: "ptr (catalog m) < length (heap m)" by (simp add: catalogAt_def)
  have le: "length (heap m) \<le> length h"
    using assms(2) by (metis length_take min.cobounded1 min.commute nat_le_linear take_all)
  have "h ! ptr (catalog m) = heap m ! ptr (catalog m)"
    using assms(2) p by (metis nth_take)
  with assms(1) p le show ?thesis
    by (simp add: catalogAt_def array_def)
qed

text \<open>
  C10. Whenever the package variable \<open>allsimualtors\<close> points to an array holding the
  catalog, as it does at process start, \<open>RunE\<close> leaves the variable and every array that
  existed before the call as they were: the selection is built in arrays allocated by
  \<open>append\<close>, and the fast-mode writes go to those arrays only. So the catalog is the same
  after the call, the same holds for every later call, and the entries that \<open>run\<close>
  receives from memory are those of \<open>RunE\<close> as modelled on values.
\<close>

theorem RunE_leaves_catalog_unchanged:
  "catalogAt w m \<Longrightarrow>
     fst (RunEM g w vars args m) = Some (RunE w vars args)
     \<and> catalog (snd (RunEM g w vars args m)) = catalog m
     \<and> take (length (heap m)) (heap (snd (RunEM g w vars args m))) = heap m
     \<and> array (heap (snd (RunEM g w vars args m))) (ptr (catalog m)) = map Some (allsimualtors w)
     \<and> catalogAt w (snd (RunEM g w vars args m))"
proof -
  assume cat: "catalogAt w m"
  define names where "names = (if length args > 0 then args else simulatorNames vars)"
  define vars1 where "vars1 = (if length args > 0 then vars\<lparr>simulatorNames := args\<rparr> else vars)"
  have n1: "simulatorNames vars1 = names" "ifaceName vars1 = ifaceName vars"
    "fast vars1 = fast vars"
    by (simp_all add: names_def vars1_def)
  have main: "fst (RunEM g w vars args m) = Some (RunE w vars args)
     \<and> catalog (snd (RunEM g w vars args m)) = catalog m
     \<and> take (length (heap m)) (heap (snd (RunEM g w vars args m))) = heap m"
  proof (cases "checkArgs (simulatorNames vars) args")
    case (Some err)
    then show ?thesis by (simp add: RunEM_def RunE_def)
  next
    case None
    show ?thesis
    proof (cases "ExternalIP w (ifaceName vars)")
      case (Inl err)
      have "RunEM g w vars args m = (Some ([CallExternalIP (ifaceName vars)], Some err, vars1), m)"
        unfolding RunEM_def Let_def vars1_def[symmetric] n1
        using None Inl by simp
      then show ?thesis
        by (simp add: RunE_no_address[OF None Inl] vars1_def)
    next
      case (Inr extIP)
      obtain h1 sl where sel: "selectSimulatorsM g names m = (h1, sl)"
        by (cases "selectSimulatorsM g names m")
      from selectSimulatorsM_builds[OF cat sel]
      have b1: "builds (heap m) h1 sl (map Some (selectSimulators w names))" .
      show ?thesis
      proof (cases "fast vars")
        case True
        from zeroIntervalsM_builds[OF b1]
        have b2: "builds (heap m) (zeroIntervalsM sl h1) sl
                    (map Some (zeroIntervals (selectSimulators w names)))"
          by (simp only: zeroCell_map_Some)
        from b2 have fr: "take (length (heap m)) (zeroIntervalsM sl h1) = heap m"
          by (simp add: builds_def)
        have "RunEM g w vars args m =
            (Some (CallExternalIP (ifaceName vars)
                     # fst (run w (zeroIntervals (selectSimulators w names)) extIP 0),
                   None, vars1),
             m\<lparr>heap := zeroIntervalsM sl h1\<rparr>)"
          unfolding RunEM_def Let_def vars1_def[symmetric] n1
          using None Inr True sel by (simp add: elements_builds[OF b2])
        with True fr show ?thesis
          by (simp add: RunE_ok[OF None Inr] names_def vars1_def)
      next
        case False
        from b1 have fr: "take (length (heap m)) h1 = heap m"
          by (simp add: builds_def)
        have "RunEM g w vars args m =
            (Some (CallExternalIP (ifaceName vars)
                     # fst (run w (selectSimulators w names) extIP (2 * Second)),
                   None, vars1),
             m\<lparr>heap := h1\<rparr>)"
          unfolding RunEM_def Let_def vars1_def[symmetric] n1
          using None Inr False sel by (simp add: elements_builds[OF b1])
        with False fr show ?thesis
          by (simp add: RunE_ok[OF None Inr] names_def vars1_def)
      qed
    qed
  qed
  define m' where "m' = snd (RunEM g w vars args m)"
  have eq: "m' = m\<lparr>heap := heap m'\<rparr>"
    using main unfolding m'_def[symmetric] by (cases m'; cases m) simp
  from main have "catalogAt w (m\<lparr>heap := heap m'\<rparr>)"
    unfolding m'_def[symmetric] by (intro catalogAt_frame[OF cat]) simp
  with eq have inv: "catalogAt w m'" by simp
  with main show ?thesis
    unfolding m'_def[symmetric] by (simp add: catalogAt_def)
qed

theorem RunE_leaves_catalog_unchanged_witness:
  "catalogAt exampleWorld (initMemory exampleWorld)
   \<and> heap (snd (RunEM (\<lambda>c. 2 * c) exampleWorld (newRunCommand True []) [''scan'']
                  (initMemory exampleWorld)))
       = [map Some (allsimualtors exampleWorld),
          [Some ((allsimualtors exampleWorld ! 2)\<lparr>interval := 0\<rparr>)]]"
proof -
  have a: "catalogAt exampleWorld (initMemory exampleWorld)"
    by (simp add: catalogAt_def initMemory_def array_def)
  have b: "heap (snd (RunEM (\<lambda>c. 2 * c) exampleWorld (newRunCommand True []) [''scan'']
                  (initMemory exampleWorld)))
       = [map Some (allsimualtors exampleWorld),
          [Some ((allsimualtors exampleWorld ! 2)\<lparr>interval := 0\<rparr>)]]"
    by (simp add: RunEM_def newRunCommand_def exampleWorld_def initMemory_def
        selectSimulatorsM_def zeroIntervalsM_def appendSlice_def store_def index_def array_def
        nilSlice_def cellName_def elements_def allsimualtors_def upt_rec Let_def)
  from RunE_leaves_catalog_unchanged[OF a, of "\<lambda>c. 2 * c" "newRunCommand True []" "[''scan'']"] a b
  show ?thesis by blast
qed

end
